theory Spec2Isabelle
  imports Main "HOL-Library.AList" "HOL-Library.Multiset"
begin

section \<open>Data model: Room, Poll, Answer documents\<close>

text \<open>
  The Mongoose schemas (AnswerSchema, PollSchema, RoomSchema) as records. A JavaScript
  Number that holds an index, a counter or a score is an \<open>int\<close> (all values that occur
  are integers far below \<open>2^53\<close>, where doubles are exact); a Date is its millisecond
  timestamp. Field names follow the schema; \<open>_id\<close> and the fields whose names occur in
  two schemas carry a prefix. \<open>endedAt\<close> is not declared by RoomSchema but is read by
  \<open>getPollAnalysis\<close> from the lean document, so the document carries it as an
  optional field.
\<close>

record answer =
  userId :: string
  answerIndex :: int
  answeredAt :: int

record poll =
  poll_id :: string
  question :: string
  options :: "string list"
  correctOptionIndex :: int
  timer :: int
  poll_createdAt :: int
  answers :: "answer list"

record room =
  room_id :: string
  roomCode :: string
  name :: string
  teacherId :: string
  createdAt :: "int option"
  endedAt :: "int option"
  status :: string
  polls :: "poll list"

record user =
  firebaseUID :: string
  firstName :: "string option"

datatype error = RoomNotFound | ValidationError | DuplicateKey

section \<open>Strings\<close>

text \<open>
  \<open>toLowerCase\<close>, \<open>toUpperCase\<close> and \<open>substring\<close> on the strings this service
  handles. The case mappings move the 26 ASCII letters and leave every other character
  alone; no character outside ASCII is mapped onto a letter of \<open>active\<close> by
  JavaScript, and the room code is built from ASCII digits and letters only.
\<close>

definition lowerAlphabet :: string where
  "lowerAlphabet = ''abcdefghijklmnopqrstuvwxyz''"

definition upperAlphabet :: string where
  "upperAlphabet = ''ABCDEFGHIJKLMNOPQRSTUVWXYZ''"

definition decimalDigits :: string where
  "decimalDigits = ''0123456789''"

definition toLowerChar :: "char \<Rightarrow> char" where
  "toLowerChar c = (case map_of (zip upperAlphabet lowerAlphabet) c of Some d \<Rightarrow> d | None \<Rightarrow> c)"

definition toUpperChar :: "char \<Rightarrow> char" where
  "toUpperChar c = (case map_of (zip lowerAlphabet upperAlphabet) c of Some d \<Rightarrow> d | None \<Rightarrow> c)"

definition toLowerCase :: "string \<Rightarrow> string" where
  "toLowerCase s = map toLowerChar s"

definition toUpperCase :: "string \<Rightarrow> string" where
  "toUpperCase s = map toUpperChar s"

text \<open>\<open>s.substring(a, b)\<close>: the arguments are swapped when \<open>a > b\<close> and clamped to the length.\<close>

definition substring :: "nat \<Rightarrow> nat \<Rightarrow> string \<Rightarrow> string" where
  "substring a b s = take (max a b - min a b) (drop (min a b) s)"

text \<open>Decimal rendering of an integer, as string concatenation with a Number does.\<close>

fun showNat :: "nat \<Rightarrow> string" where
  "showNat n = (if n < 10 then [decimalDigits ! n]
                else showNat (n div 10) @ [decimalDigits ! (n mod 10)])"

declare showNat.simps [simp del]

definition showInt :: "int \<Rightarrow> string" where
  "showInt i = (if i < 0 then CHR ''-'' # showNat (nat (- i)) else showNat (nat i))"

section \<open>The Room collection\<close>

text \<open>
  The collection is the list of its documents in natural order.
  \<open>Room.findOne({ roomCode: code }).lean()\<close> yields the first document that matches,
  or null.
\<close>

definition findOne :: "string \<Rightarrow> room list \<Rightarrow> room option" where
  "findOne code rooms = find (\<lambda>r. roomCode r = code) rooms"

text \<open>
  \<open>Room.findOneAndUpdate({ roomCode: code }, { status: 'ended' }, { new: true })\<close>:
  the first matching document gets the update, and is returned as updated.
\<close>

fun findOneAndUpdate :: "string \<Rightarrow> (room \<Rightarrow> room) \<Rightarrow> room list \<Rightarrow> room option \<times> room list" where
  "findOneAndUpdate code upd [] = (None, [])"
| "findOneAndUpdate code upd (r # rs) =
     (if roomCode r = code then (Some (upd r), upd r # rs)
      else (case findOneAndUpdate code upd rs of (res, rs') \<Rightarrow> (res, r # rs')))"

section \<open>RoomService: room lifecycle\<close>

text \<open>
  \<open>createRoom\<close>. The outcome of \<open>Math.random().toString(36)\<close> is the argument
  \<open>rnd\<close>; \<open>now\<close> is \<open>new Date()\<close> and \<open>oid\<close> the identifier the store assigns.
  \<open>save()\<close> runs the schema's \<open>required\<close> validators (an empty string fails them)
  and the unique index on \<open>roomCode\<close>.
\<close>

definition createRoom ::
  "room list \<Rightarrow> string \<Rightarrow> int \<Rightarrow> string \<Rightarrow> string \<Rightarrow> string \<Rightarrow> error + (room \<times> room list)" where
  "createRoom rooms rnd now oid nm tid =
     (let code = toUpperCase (substring 2 8 rnd);
          newRoom = \<lparr> room_id = oid, roomCode = code, name = nm, teacherId = tid,
                      createdAt = Some now, endedAt = None, status = ''active'', polls = [] \<rparr>
      in if code = [] \<or> nm = [] \<or> tid = [] then Inl ValidationError
         else if code \<in> set (map roomCode rooms) then Inl DuplicateKey
         else Inr (newRoom, rooms @ [newRoom]))"

text \<open>
  What \<open>Math.random().toString(36)\<close> can print for a Number in \<open>[0, 1)\<close>: \<open>0\<close> for
  zero, otherwise \<open>0.\<close> followed by at least one digit of \<open>0-9a-z\<close>.
\<close>

definition isBase36Lower :: "char \<Rightarrow> bool" where
  "isBase36Lower c = (c \<in> set decimalDigits \<or> c \<in> set lowerAlphabet)"

definition isBase36Upper :: "char \<Rightarrow> bool" where
  "isBase36Upper c = (c \<in> set decimalDigits \<or> c \<in> set upperAlphabet)"

definition isRandomBase36 :: "string \<Rightarrow> bool" where
  "isRandomBase36 s =
     (s = ''0'' \<or> (take 2 s = ''0.'' \<and> drop 2 s \<noteq> [] \<and> list_all isBase36Lower (drop 2 s)))"

definition isRoomValid :: "room list \<Rightarrow> string \<Rightarrow> bool" where
  "isRoomValid rooms code =
     (case findOne code rooms of None \<Rightarrow> False
      | Some r \<Rightarrow> toLowerCase (status r) = ''active'')"

definition isRoomEnded :: "room list \<Rightarrow> string \<Rightarrow> bool" where
  "isRoomEnded rooms code =
     (case findOne code rooms of None \<Rightarrow> False | Some r \<Rightarrow> status r = ''ended'')"

definition endRoom :: "string \<Rightarrow> room list \<Rightarrow> bool \<times> room list" where
  "endRoom code rooms =
     (case findOneAndUpdate code (\<lambda>r. r\<lparr>status := ''ended''\<rparr>) rooms of
        (updated, rooms') \<Rightarrow> (updated \<noteq> None, rooms'))"

definition canJoinRoom :: "room list \<Rightarrow> string \<Rightarrow> bool" where
  "canJoinRoom rooms code =
     (case findOne code rooms of None \<Rightarrow> False | Some r \<Rightarrow> status r = ''active'')"

section \<open>RoomService: poll analysis\<close>

text \<open>
  The value type of \<open>participantsMap\<close>, the records of the result, and the result.
  A JavaScript Map iterates in insertion order and \<open>set\<close> on a present key keeps its
  place: an association list under \<open>AList.update\<close>.
\<close>

record participantAcc =
  acc_userId :: string
  acc_correct :: int
  acc_wrong :: int
  acc_score :: int
  acc_timeTaken :: int

record participant =
  p_name :: string
  p_score :: int
  p_correct :: int
  p_wrong :: int
  p_timeTaken :: string

record questionStat =
  q_text :: string
  correctCount :: nat

record analysis =
  a_id :: string
  a_name :: string
  a_createdAt :: "int option"
  duration :: string
  participants :: "participant list"
  questions :: "questionStat list"

definition newParticipant :: "string \<Rightarrow> participantAcc" where
  "newParticipant uid =
     \<lparr> acc_userId = uid, acc_correct = 0, acc_wrong = 0, acc_score = 0, acc_timeTaken = 0 \<rparr>"

text \<open>The body of the inner loop, for one answer of one poll.\<close>

definition tallyAnswer ::
  "poll \<Rightarrow> answer \<Rightarrow> (string \<times> participantAcc) list \<Rightarrow> (string \<times> participantAcc) list" where
  "tallyAnswer p a pm =
     (let pm1 = (if map_of pm (userId a) = None
                 then AList.update (userId a) (newParticipant (userId a)) pm else pm)
      in case map_of pm1 (userId a) of
           None \<Rightarrow> pm1
         | Some pt \<Rightarrow>
             AList.update (userId a)
               (if answerIndex a = correctOptionIndex p
                then pt\<lparr> acc_correct := acc_correct pt + 1, acc_score := acc_score pt + 5 \<rparr>
                else pt\<lparr> acc_wrong := acc_wrong pt + 1, acc_score := acc_score pt - 2 \<rparr>)
               pm1)"

definition tallyPoll ::
  "(string \<times> participantAcc) list \<Rightarrow> poll \<Rightarrow> (string \<times> participantAcc) list" where
  "tallyPoll pm p = foldl (\<lambda>m a. tallyAnswer p a m) pm (answers p)"

definition tallyPolls :: "poll list \<Rightarrow> (string \<times> participantAcc) list" where
  "tallyPolls ps = foldl tallyPoll [] ps"

text \<open>\<open>Math.ceil(x / d)\<close> for integers \<open>x\<close> and \<open>d > 0\<close>.\<close>

definition ceilDiv :: "int \<Rightarrow> int \<Rightarrow> int" where
  "ceilDiv x d = - ((- x) div d)"

definition toParticipant :: "user list \<Rightarrow> participantAcc \<Rightarrow> participant" where
  "toParticipant us p =
     \<lparr> p_name = (case find (\<lambda>u. firebaseUID u = acc_userId p) us of
                   None \<Rightarrow> ''Anonymous''
                 | Some u \<Rightarrow> (case firstName u of None \<Rightarrow> ''Anonymous'' | Some n \<Rightarrow> n)),
       p_score = acc_score p,
       p_correct = acc_correct p,
       p_wrong = acc_wrong p,
       p_timeTaken = (if acc_timeTaken p > 0
                      then showInt (ceilDiv (acc_timeTaken p) 60) @ '' min'' else ''N/A'') \<rparr>"

text \<open>
  \<open>participants.sort((a, b) => b.score - a.score)\<close>: the comparator, and the stable
  sort that \<open>Array.prototype.sort\<close> is, as an insertion sort.
\<close>

definition compareScore :: "participant \<Rightarrow> participant \<Rightarrow> int" where
  "compareScore a b = p_score b - p_score a"

fun insertBy :: "('a \<Rightarrow> 'a \<Rightarrow> int) \<Rightarrow> 'a \<Rightarrow> 'a list \<Rightarrow> 'a list" where
  "insertBy cmp x [] = [x]"
| "insertBy cmp x (y # ys) = (if cmp x y \<le> 0 then x # y # ys else y # insertBy cmp x ys)"

definition sortBy :: "('a \<Rightarrow> 'a \<Rightarrow> int) \<Rightarrow> 'a list \<Rightarrow> 'a list" where
  "sortBy cmp xs = foldr (insertBy cmp) xs []"

definition questionStats :: "poll list \<Rightarrow> questionStat list" where
  "questionStats ps =
     map (\<lambda>p. \<lparr> q_text = question p,
                 correctCount = length (filter (\<lambda>a. answerIndex a = correctOptionIndex p) (answers p)) \<rparr>) ps"

definition getPollAnalysis :: "room list \<Rightarrow> user list \<Rightarrow> string \<Rightarrow> error + analysis" where
  "getPollAnalysis rooms userColl code =
     (case findOne code rooms of
        None \<Rightarrow> Inl RoomNotFound
      | Some rm \<Rightarrow>
          (let participantsMap = tallyPolls (polls rm);
               userIds = map fst participantsMap;
               users = filter (\<lambda>u. firebaseUID u \<in> set userIds) userColl
           in Inr \<lparr> a_id = room_id rm,
                    a_name = name rm,
                    a_createdAt = createdAt rm,
                    duration = (case (endedAt rm, createdAt rm) of
                                  (Some e, Some c) \<Rightarrow> showInt (ceilDiv (e - c) 60000) @ '' mins''
                                | _ \<Rightarrow> ''N/A''),
                    participants = sortBy compareScore (map (toParticipant users) (map snd participantsMap)),
                    questions = questionStats (polls rm) \<rparr>))"

section \<open>Specification-side notions\<close>

text \<open>
  What the specification speaks of, in its own words, to compare the code with: equality
  of two strings up to the case of ASCII letters; the answers of a room in stored order,
  each with the poll that holds it; the identities that occur in some answer of some
  poll; the students in order of their first answer; a
  student's number of correct and of remaining answers; and the display name of a
  student (the first name of the first user with that identity, else \<open>Anonymous\<close>).
\<close>

definition sameLetter :: "char \<Rightarrow> char \<Rightarrow> bool" where
  "sameLetter c d = (c = d \<or> (c, d) \<in> set (zip upperAlphabet lowerAlphabet)
        \<or> (d, c) \<in> set (zip upperAlphabet lowerAlphabet))"

definition equalsIgnoreCase :: "string \<Rightarrow> string \<Rightarrow> bool" where
  "equalsIgnoreCase s t = list_all2 sameLetter s t"

definition allAnswers :: "poll list \<Rightarrow> (poll \<times> answer) list" where
  "allAnswers ps = concat (map (\<lambda>p. map (Pair p) (answers p)) ps)"

definition respondents :: "poll list \<Rightarrow> string set" where
  "respondents ps = userId ` (\<Union>p \<in> set ps. set (answers p))"

definition studentsOf :: "(poll \<times> answer) list \<Rightarrow> string list" where
  "studentsOf pas = rev (remdups (rev (map (\<lambda>pa. userId (snd pa)) pas)))"

definition correctOf :: "(poll \<times> answer) list \<Rightarrow> string \<Rightarrow> int" where
  "correctOf pas u =
     int (length (filter (\<lambda>pa. userId (snd pa) = u
                              \<and> answerIndex (snd pa) = correctOptionIndex (fst pa)) pas))"

definition wrongOf :: "(poll \<times> answer) list \<Rightarrow> string \<Rightarrow> int" where
  "wrongOf pas u =
     int (length (filter (\<lambda>pa. userId (snd pa) = u
                              \<and> answerIndex (snd pa) \<noteq> correctOptionIndex (fst pa)) pas))"

definition displayName :: "user list \<Rightarrow> string \<Rightarrow> string" where
  "displayName us u =
     (case find (\<lambda>x. firebaseUID x = u) us of
        None \<Rightarrow> ''Anonymous''
      | Some x \<Rightarrow> (case firstName x of None \<Rightarrow> ''Anonymous'' | Some n \<Rightarrow> n))"

definition expectedParticipant :: "user list \<Rightarrow> (poll \<times> answer) list \<Rightarrow> string \<Rightarrow> participant" where
  "expectedParticipant us pas u =
     \<lparr> p_name = displayName us u,
       p_score = 5 * correctOf pas u - 2 * wrongOf pas u,
       p_correct = correctOf pas u,
       p_wrong = wrongOf pas u,
       p_timeTaken = ''N/A'' \<rparr>"

text \<open>The accumulator a student must hold once the answers \<open>pas\<close> have been processed.\<close>

definition accOf :: "(poll \<times> answer) list \<Rightarrow> string \<Rightarrow> participantAcc" where
  "accOf pas u =
     \<lparr> acc_userId = u, acc_correct = correctOf pas u, acc_wrong = wrongOf pas u,
       acc_score = 5 * correctOf pas u - 2 * wrongOf pas u, acc_timeTaken = 0 \<rparr>"

text \<open>
  The polls of a room whose correct option is configured, those where it is left at the
  sentinel \<open>-1\<close>, and the number of a student's answers among given ones.
\<close>

definition setPolls :: "poll list \<Rightarrow> poll list" where
  "setPolls ps = filter (\<lambda>p. correctOptionIndex p \<noteq> - 1) ps"

definition unsetPolls :: "poll list \<Rightarrow> poll list" where
  "unsetPolls ps = filter (\<lambda>p. correctOptionIndex p = - 1) ps"

definition answersBy :: "(poll \<times> answer) list \<Rightarrow> string \<Rightarrow> int" where
  "answersBy pas u = int (length (filter (\<lambda>pa. userId (snd pa) = u) pas))"

section \<open>A classroom, for the concrete instances\<close>

text \<open>
  A room with two polls. Poll A has correct option 1 and the answers of u2 (option 0) and
  u1 (option 1); poll B has correct option 0 and the answers of u1 and u2 (both option 0).
  Only u1 has a user record. A second room has ended without polls; a third holds a
  poll whose correct option was never set, answered once; a fourth holds poll B and
  after it such a poll, answered with options 0 and 1. \<open>createdRoom\<close> is the room that
  \<open>createRoom\<close> makes for Algebra at time 900 under a given code.
\<close>

definition pollA :: poll where
  "pollA = \<lparr> poll_id = ''pA'', question = ''A?'', options = [''x'', ''y''],
             correctOptionIndex = 1, timer = 30, poll_createdAt = 1000,
             answers = [\<lparr> userId = ''u2'', answerIndex = 0, answeredAt = 1100 \<rparr>,
                        \<lparr> userId = ''u1'', answerIndex = 1, answeredAt = 1200 \<rparr>] \<rparr>"

definition pollB :: poll where
  "pollB = \<lparr> poll_id = ''pB'', question = ''B?'', options = [''x'', ''y''],
             correctOptionIndex = 0, timer = 30, poll_createdAt = 2000,
             answers = [\<lparr> userId = ''u1'', answerIndex = 0, answeredAt = 2100 \<rparr>,
                        \<lparr> userId = ''u2'', answerIndex = 0, answeredAt = 2200 \<rparr>] \<rparr>"

definition algebraRoom :: room where
  "algebraRoom = \<lparr> room_id = ''r1'', roomCode = ''ABC123'', name = ''Algebra'',
                   teacherId = ''teacher-1'', createdAt = Some 500, endedAt = None,
                   status = ''active'', polls = [pollA, pollB] \<rparr>"

definition emptyRoom :: room where
  "emptyRoom = \<lparr> room_id = ''r2'', roomCode = ''XYZ789'', name = ''Empty'',
                 teacherId = ''teacher-1'', createdAt = Some 600, endedAt = None,
                 status = ''ended'', polls = [] \<rparr>"

definition unsetPoll :: poll where
  "unsetPoll = \<lparr> poll_id = ''pU'', question = ''U?'', options = [''x'', ''y''],
                 correctOptionIndex = - 1, timer = 30, poll_createdAt = 3000,
                 answers = [\<lparr> userId = ''u3'', answerIndex = 0, answeredAt = 3100 \<rparr>] \<rparr>"

definition unsetRoom :: room where
  "unsetRoom = \<lparr> room_id = ''r3'', roomCode = ''UNSET1'', name = ''Unset'',
                 teacherId = ''teacher-2'', createdAt = Some 700, endedAt = None,
                 status = ''Active'', polls = [unsetPoll] \<rparr>"

definition draftPoll :: poll where
  "draftPoll = \<lparr> poll_id = ''pD'', question = ''D?'', options = [''x'', ''y''],
                 correctOptionIndex = - 1, timer = 30, poll_createdAt = 4000,
                 answers = [\<lparr> userId = ''u1'', answerIndex = 0, answeredAt = 4100 \<rparr>,
                            \<lparr> userId = ''u2'', answerIndex = 1, answeredAt = 4200 \<rparr>] \<rparr>"

definition draftRoom :: room where
  "draftRoom = \<lparr> room_id = ''r4'', roomCode = ''DRAFT1'', name = ''Draft'',
                 teacherId = ''teacher-2'', createdAt = Some 800, endedAt = None,
                 status = ''active'', polls = [pollB, draftPoll] \<rparr>"

definition classroom :: "room list" where
  "classroom = [algebraRoom, emptyRoom, unsetRoom, draftRoom]"

definition createdRoom :: "string \<Rightarrow> room" where
  "createdRoom code = \<lparr> room_id = ''r5'', roomCode = code, name = ''Algebra'',
                        teacherId = ''teacher-1'', createdAt = Some 900, endedAt = None,
                        status = ''active'', polls = [] \<rparr>"

definition userColl :: "user list" where
  "userColl = [\<lparr> firebaseUID = ''u1'', firstName = Some ''Ada'' \<rparr>]"

definition algebraParticipants :: "participant list" where
  "algebraParticipants =
     [\<lparr> p_name = ''Ada'', p_score = 10, p_correct = 2, p_wrong = 0, p_timeTaken = ''N/A'' \<rparr>,
      \<lparr> p_name = ''Anonymous'', p_score = 3, p_correct = 1, p_wrong = 1, p_timeTaken = ''N/A'' \<rparr>]"

definition algebraAnalysis :: analysis where
  "algebraAnalysis =
     \<lparr> a_id = ''r1'', a_name = ''Algebra'', a_createdAt = Some 500, duration = ''N/A'',
       participants = algebraParticipants,
       questions = [\<lparr> q_text = ''A?'', correctCount = 1 \<rparr>, \<lparr> q_text = ''B?'', correctCount = 2 \<rparr>] \<rparr>"

section \<open>Lookups in the Room collection\<close>

lemmas alphabet_defs = lowerAlphabet_def upperAlphabet_def decimalDigits_def

lemmas classroom_defs = classroom_def algebraRoom_def emptyRoom_def unsetRoom_def draftRoom_def
  pollA_def pollB_def unsetPoll_def draftPoll_def userColl_def algebraParticipants_def
  algebraAnalysis_def

lemmas analysis_defs = getPollAnalysis_def findOne_def tallyPolls_def tallyPoll_def
  tallyAnswer_def newParticipant_def toParticipant_def sortBy_def compareScore_def
  questionStats_def

lemma findOne_None_iff: "findOne code rooms = None \<longleftrightarrow> code \<notin> set (map roomCode rooms)"
  by (auto simp: findOne_def find_None_iff)

lemma findOne_SomeD: "findOne code rooms = Some r \<Longrightarrow> r \<in> set rooms \<and> roomCode r = code"
  by (auto simp: findOne_def find_Some_iff)

lemma findOne_distinct:
  "distinct (map roomCode rooms) \<Longrightarrow> r \<in> set rooms \<Longrightarrow> findOne (roomCode r) rooms = Some r"
  unfolding findOne_def
  by (induction rooms) auto

lemma findOneAndUpdate_fst:
  "fst (findOneAndUpdate code upd rs) = map_option upd (findOne code rs)"
  by (induction rs) (auto simp: findOne_def split: prod.splits)

lemma findOneAndUpdate_findOne:
  "\<forall>r. roomCode (upd r) = roomCode r \<Longrightarrow>
   findOne c (snd (findOneAndUpdate code upd rs)) =
     (if c = code then map_option upd (findOne code rs) else findOne c rs)"
  by (induction rs) (auto simp: findOne_def split: prod.splits)

lemma findOneAndUpdate_idem:
  "\<forall>r. roomCode (upd r) = roomCode r \<Longrightarrow> \<forall>r. upd (upd r) = upd r \<Longrightarrow>
   snd (findOneAndUpdate code upd (snd (findOneAndUpdate code upd rs))) =
   snd (findOneAndUpdate code upd rs)"
  by (induction rs) (auto split: prod.splits)

lemma findOneAndUpdate_absent:
  "code \<notin> set (map roomCode rs) \<Longrightarrow> findOneAndUpdate code upd rs = (None, rs)"
  by (induction rs) auto

text \<open>
  The update touches one document at most, the first with the code, and deletes none.
\<close>

lemma findOneAndUpdate_frame:
  "length (snd (findOneAndUpdate code upd rs)) = length rs \<and>
   (\<forall>i < length rs. snd (findOneAndUpdate code upd rs) ! i = rs ! i
       \<or> (roomCode (rs ! i) = code \<and> snd (findOneAndUpdate code upd rs) ! i = upd (rs ! i)))"
proof (induction rs)
  case Nil
  then show ?case by simp
next
  case (Cons r rs)
  show ?case
  proof (cases "roomCode r = code")
    case True
    then show ?thesis by (auto simp: nth_Cons split: nat.splits)
  next
    case False
    then show ?thesis using Cons by (auto simp: nth_Cons split: prod.splits nat.splits)
  qed
qed

section \<open>Case-insensitive comparison with \<open>active\<close>\<close>

lemma toLowerChar_active_letters:
  "toLowerChar c = CHR ''a'' \<longleftrightarrow> sameLetter c CHR ''a''"
  "toLowerChar c = CHR ''c'' \<longleftrightarrow> sameLetter c CHR ''c''"
  "toLowerChar c = CHR ''t'' \<longleftrightarrow> sameLetter c CHR ''t''"
  "toLowerChar c = CHR ''i'' \<longleftrightarrow> sameLetter c CHR ''i''"
  "toLowerChar c = CHR ''v'' \<longleftrightarrow> sameLetter c CHR ''v''"
  "toLowerChar c = CHR ''e'' \<longleftrightarrow> sameLetter c CHR ''e''"
  unfolding toLowerChar_def sameLetter_def alphabet_defs
  by (simp_all split: if_splits)

lemma toLowerCase_active: "toLowerCase s = ''active'' \<longleftrightarrow> equalsIgnoreCase s ''active''"
proof (cases "length s = 6")
  case True
  then obtain a b c d e f where s: "s = [a, b, c, d, e, f]"
    by (auto simp: length_Suc_conv eval_nat_numeral)
  show ?thesis unfolding s toLowerCase_def equalsIgnoreCase_def
    by (simp add: toLowerChar_active_letters)
next
  case False
  have "toLowerCase s \<noteq> ''active''"
    using False by (auto simp: toLowerCase_def dest: arg_cong[where f=length])
  moreover have "\<not> equalsIgnoreCase s ''active''"
  proof
    assume "equalsIgnoreCase s ''active''"
    then have "length s = length ''active''"
      unfolding equalsIgnoreCase_def by (rule list_all2_lengthD)
    with False show False by simp
  qed
  ultimately show ?thesis by simp
qed

lemma toLowerCase_literals:
  "toLowerCase ''active'' = ''active''" "toLowerCase ''ended'' = ''ended''"
  by (simp_all add: toLowerCase_def toLowerChar_def alphabet_defs)

section \<open>Room validity\<close>

text \<open>
  C6. With room codes unique in the collection (the schema's unique index),
  \<open>isRoomValid code\<close> is true exactly when a room with that code exists and its
  status equals \<open>active\<close> up to the case of its letters; it is false for a code that
  no room has.
\<close>

theorem isRoomValid_iff:
  "distinct (map roomCode rooms) \<Longrightarrow>
     (isRoomValid rooms code \<longleftrightarrow>
        (\<exists>r \<in> set rooms. roomCode r = code \<and> equalsIgnoreCase (status r) ''active''))
     \<and> (code \<notin> set (map roomCode rooms) \<longrightarrow> \<not> isRoomValid rooms code)"
proof -
  assume d: "distinct (map roomCode rooms)"
  have absent: "\<not> isRoomValid rooms code" if "code \<notin> set (map roomCode rooms)"
    using that findOne_None_iff[of code rooms] by (simp add: isRoomValid_def)
  have fwd: "\<exists>r \<in> set rooms. roomCode r = code \<and> equalsIgnoreCase (status r) ''active''"
    if v: "isRoomValid rooms code"
  proof (cases "findOne code rooms")
    case None
    with v show ?thesis by (simp add: isRoomValid_def)
  next
    case (Some r)
    with v have "equalsIgnoreCase (status r) ''active''"
      by (simp add: isRoomValid_def toLowerCase_active)
    with findOne_SomeD[OF Some] show ?thesis by blast
  qed
  have bwd: "isRoomValid rooms code"
    if "r \<in> set rooms" "roomCode r = code" "equalsIgnoreCase (status r) ''active''" for r
  proof -
    have "findOne code rooms = Some r"
      using findOne_distinct[OF d that(1)] that(2) by simp
    with that(3) show ?thesis by (simp add: isRoomValid_def toLowerCase_active)
  qed
  from absent fwd bwd show ?thesis by blast
qed

theorem isRoomValid_iff_witness:
  "distinct (map roomCode classroom)
   \<and> isRoomValid classroom ''UNSET1''
   \<and> (\<exists>r \<in> set classroom. roomCode r = ''UNSET1'' \<and> equalsIgnoreCase (status r) ''active'')
   \<and> ''NOROOM'' \<notin> set (map roomCode classroom)
   \<and> \<not> isRoomValid classroom ''NOROOM''"
proof -
  have d: "distinct (map roomCode classroom)"
    by (simp add: classroom_defs)
  have v: "isRoomValid classroom ''UNSET1''"
    by (simp add: classroom_defs isRoomValid_def findOne_def toLowerCase_def toLowerChar_def
        alphabet_defs)
  have n: "''NOROOM'' \<notin> set (map roomCode classroom)"
    by (simp add: classroom_defs)
  from isRoomValid_iff[OF d, of "''UNSET1''"] isRoomValid_iff[OF d, of "''NOROOM''"] d v n
  show ?thesis by blast
qed

text \<open>
  C10. When every stored status is exactly \<open>active\<close> or \<open>ended\<close> (the schema's
  enum), \<open>isRoomValid\<close> and \<open>canJoinRoom\<close> agree on every code.
\<close>

theorem isRoomValid_canJoinRoom:
  "\<forall>r \<in> set rooms. status r = ''active'' \<or> status r = ''ended'' \<Longrightarrow>
     isRoomValid rooms code = canJoinRoom rooms code"
proof (cases "findOne code rooms")
  case None
  then show ?thesis by (simp add: isRoomValid_def canJoinRoom_def)
next
  case (Some r)
  assume "\<forall>r \<in> set rooms. status r = ''active'' \<or> status r = ''ended''"
  then have "status r = ''active'' \<or> status r = ''ended''"
    using findOne_SomeD[OF Some] by blast
  then show ?thesis
    using Some by (auto simp: isRoomValid_def canJoinRoom_def toLowerCase_literals)
qed

theorem isRoomValid_canJoinRoom_witness:
  "list_all (\<lambda>r. status r = ''active'' \<or> status r = ''ended'') [algebraRoom, emptyRoom]
   \<and> isRoomValid [algebraRoom, emptyRoom] ''ABC123'' = canJoinRoom [algebraRoom, emptyRoom] ''ABC123''
   \<and> canJoinRoom [algebraRoom, emptyRoom] ''ABC123''
   \<and> isRoomValid [algebraRoom, emptyRoom] ''XYZ789'' = canJoinRoom [algebraRoom, emptyRoom] ''XYZ789''
   \<and> \<not> canJoinRoom [algebraRoom, emptyRoom] ''XYZ789''"
proof -
  have h: "\<forall>r \<in> set [algebraRoom, emptyRoom]. status r = ''active'' \<or> status r = ''ended''"
    by (simp add: classroom_defs)
  have j: "canJoinRoom [algebraRoom, emptyRoom] ''ABC123''"
    "\<not> canJoinRoom [algebraRoom, emptyRoom] ''XYZ789''"
    by (simp_all add: classroom_defs canJoinRoom_def findOne_def)
  from isRoomValid_canJoinRoom[OF h, of "''ABC123''"] isRoomValid_canJoinRoom[OF h, of "''XYZ789''"] h j
  show ?thesis by (simp add: list_all_iff)
qed

section \<open>Ending a room\<close>

text \<open>
  C8. For a code that some room has, \<open>endRoom\<close> returns true, returns true again when
  repeated, and the room found under the code has status \<open>ended\<close> after the first call
  and after the second, whatever its status was before; the second call changes nothing.
  For a code that no room has, it returns false and leaves the collection as it was.
\<close>

theorem endRoom_idempotent:
  "(code \<in> set (map roomCode rooms) \<longrightarrow>
      fst (endRoom code rooms)
      \<and> fst (endRoom code (snd (endRoom code rooms)))
      \<and> map_option status (findOne code (snd (endRoom code rooms))) = Some ''ended''
      \<and> map_option status (findOne code (snd (endRoom code (snd (endRoom code rooms))))) = Some ''ended''
      \<and> snd (endRoom code (snd (endRoom code rooms))) = snd (endRoom code rooms))
   \<and> (code \<notin> set (map roomCode rooms) \<longrightarrow> endRoom code rooms = (False, rooms))"
proof -
  let ?upd = "\<lambda>r::room. r\<lparr>status := ''ended''\<rparr>"
  have fstE: "fst (endRoom c rs) \<longleftrightarrow> c \<in> set (map roomCode rs)" for c rs
    using findOneAndUpdate_fst[of c ?upd rs] findOne_None_iff[of c rs]
    by (cases "findOneAndUpdate c ?upd rs") (auto simp: endRoom_def)
  have sndE: "snd (endRoom c rs) = snd (findOneAndUpdate c ?upd rs)" for c rs
    by (simp add: endRoom_def split: prod.splits)
  have look: "findOne code (snd (endRoom code rs)) = map_option ?upd (findOne code rs)" for rs
    unfolding sndE by (subst findOneAndUpdate_findOne) simp_all
  have idem: "snd (endRoom code (snd (endRoom code rs))) = snd (endRoom code rs)" for rs
    unfolding sndE by (rule findOneAndUpdate_idem) simp_all
  have absent: "endRoom code rooms = (False, rooms)" if "code \<notin> set (map roomCode rooms)"
    using findOneAndUpdate_absent[OF that] by (simp add: endRoom_def)
  have present: "\<exists>r. findOne code rooms = Some r" if "code \<in> set (map roomCode rooms)"
    using that findOne_None_iff[of code rooms] by (cases "findOne code rooms") auto
  show ?thesis
  proof (intro conjI impI)
    assume m: "code \<in> set (map roomCode rooms)"
    from present[OF m] obtain r where r: "findOne code rooms = Some r" by blast
    show "fst (endRoom code rooms)" using m fstE by blast
    have st: "map_option status (findOne code (snd (endRoom code rooms))) = Some ''ended''"
      by (simp add: look r)
    then have "findOne code (snd (endRoom code rooms)) \<noteq> None" by auto
    then have "code \<in> set (map roomCode (snd (endRoom code rooms)))"
      using findOne_None_iff[of code "snd (endRoom code rooms)"] by simp
    then show "fst (endRoom code (snd (endRoom code rooms)))" using fstE by blast
    show "map_option status (findOne code (snd (endRoom code rooms))) = Some ''ended''" by (rule st)
    show "map_option status (findOne code (snd (endRoom code (snd (endRoom code rooms))))) = Some ''ended''"
      by (simp add: idem st)
    show "snd (endRoom code (snd (endRoom code rooms))) = snd (endRoom code rooms)" by (rule idem)
  next
    assume "code \<notin> set (map roomCode rooms)"
    then show "endRoom code rooms = (False, rooms)" by (rule absent)
  qed
qed

theorem endRoom_idempotent_witness:
  "''XYZ789'' \<in> set (map roomCode classroom)
   \<and> status emptyRoom = ''ended''
   \<and> fst (endRoom ''XYZ789'' classroom)
   \<and> fst (endRoom ''XYZ789'' (snd (endRoom ''XYZ789'' classroom)))
   \<and> map_option status (findOne ''XYZ789'' (snd (endRoom ''XYZ789'' classroom))) = Some ''ended''
   \<and> ''ABC123'' \<in> set (map roomCode classroom)
   \<and> fst (endRoom ''ABC123'' classroom)
   \<and> fst (endRoom ''ABC123'' (snd (endRoom ''ABC123'' classroom)))
   \<and> map_option status (findOne ''ABC123'' (snd (endRoom ''ABC123'' (snd (endRoom ''ABC123'' classroom))))) = Some ''ended''
   \<and> ''NOROOM'' \<notin> set (map roomCode classroom)
   \<and> endRoom ''NOROOM'' classroom = (False, classroom)"
proof -
  have m: "''XYZ789'' \<in> set (map roomCode classroom)" "''ABC123'' \<in> set (map roomCode classroom)"
    "''NOROOM'' \<notin> set (map roomCode classroom)" "status emptyRoom = ''ended''"
    by (simp_all add: classroom_defs)
  from endRoom_idempotent[of "''XYZ789''" classroom] endRoom_idempotent[of "''ABC123''" classroom]
    endRoom_idempotent[of "''NOROOM''" classroom] m
  show ?thesis by blast
qed

section \<open>Poll analysis: the room lookup\<close>

text \<open>
  C7. \<open>getPollAnalysis\<close> fails with \<open>RoomNotFound\<close> exactly when no stored room has
  the code: for such a code it yields no report at all, and for the code of a stored room
  it yields a report.
\<close>

theorem getPollAnalysis_not_found:
  "(getPollAnalysis rooms us code = Inl RoomNotFound \<longleftrightarrow> code \<notin> set (map roomCode rooms))
   \<and> (code \<notin> set (map roomCode rooms) \<longrightarrow> (\<forall>out. getPollAnalysis rooms us code \<noteq> Inr out))
   \<and> (code \<in> set (map roomCode rooms) \<longrightarrow> (\<exists>out. getPollAnalysis rooms us code = Inr out))"
  using findOne_None_iff[of code rooms]
  by (cases "findOne code rooms") (auto simp: getPollAnalysis_def Let_def)

theorem getPollAnalysis_not_found_witness:
  "''NOROOM'' \<notin> set (map roomCode classroom)
   \<and> getPollAnalysis classroom userColl ''NOROOM'' = Inl RoomNotFound
   \<and> ''XYZ789'' \<in> set (map roomCode classroom)
   \<and> getPollAnalysis classroom userColl ''XYZ789'' \<noteq> Inl RoomNotFound
   \<and> (\<exists>out. getPollAnalysis classroom userColl ''XYZ789'' = Inr out)"
proof -
  have m: "''NOROOM'' \<notin> set (map roomCode classroom)" "''XYZ789'' \<in> set (map roomCode classroom)"
    by (simp_all add: classroom_defs)
  from getPollAnalysis_not_found[of classroom userColl "''NOROOM''"]
    getPollAnalysis_not_found[of classroom userColl "''XYZ789''"] m
  show ?thesis by blast
qed


section \<open>Poll analysis: the tally\<close>

text \<open>
  The two nested loops visit the answers of \<open>allAnswers\<close> in order.
\<close>

lemma tallyPoll_flat:
  "tallyPoll pm p = foldl (\<lambda>m pa. tallyAnswer (fst pa) (snd pa) m) pm (map (Pair p) (answers p))"
  by (simp add: tallyPoll_def foldl_map)

lemma tallyPolls_flat_gen:
  "foldl tallyPoll pm ps = foldl (\<lambda>m pa. tallyAnswer (fst pa) (snd pa) m) pm (allAnswers ps)"
  by (induction ps arbitrary: pm) (simp_all add: allAnswers_def tallyPoll_flat)

lemma tallyPolls_flat:
  "tallyPolls ps = foldl (\<lambda>m pa. tallyAnswer (fst pa) (snd pa) m) [] (allAnswers ps)"
  by (simp add: tallyPolls_def tallyPolls_flat_gen)

lemma map_of_graph:
  "map_of (map (\<lambda>u. (u, f u)) us) k = (if k \<in> set us then Some (f k) else None)"
  by (induction us) auto

lemma update_graph_absent:
  "k \<notin> set us \<Longrightarrow> AList.update k v (map (\<lambda>u. (u, f u)) us) = map (\<lambda>u. (u, f u)) us @ [(k, v)]"
  by (induction us) auto

lemma update_graph_present:
  "k \<in> set us \<Longrightarrow> distinct us \<Longrightarrow>
   AList.update k v (map (\<lambda>u. (u, f u)) us) = map (\<lambda>u. (u, (f(k := v)) u)) us"
proof (induction us)
  case Nil
  then show ?case by simp
next
  case (Cons a us)
  show ?case
  proof (cases "a = k")
    case True
    with Cons.prems have "k \<notin> set us" by simp
    then have "map (\<lambda>u. (u, (f(k := v)) u)) us = map (\<lambda>u. (u, f u)) us"
      by (intro map_cong) auto
    with True show ?thesis by simp
  next
    case False
    with Cons show ?thesis by simp
  qed
qed

lemma studentsOf_Nil: "studentsOf [] = []"
  by (simp add: studentsOf_def)

lemma studentsOf_snoc:
  "studentsOf (pas @ [pa]) =
     (if userId (snd pa) \<in> set (studentsOf pas) then studentsOf pas
      else studentsOf pas @ [userId (snd pa)])"
  by (auto simp: studentsOf_def)

lemma set_studentsOf: "set (studentsOf pas) = (\<lambda>pa. userId (snd pa)) ` set pas"
  by (simp add: studentsOf_def)

lemma distinct_studentsOf: "distinct (studentsOf pas)"
  by (simp add: studentsOf_def)

lemma correctOf_snoc:
  "correctOf (pas @ [pa]) u =
     correctOf pas u + (if userId (snd pa) = u \<and> answerIndex (snd pa) = correctOptionIndex (fst pa) then 1 else 0)"
  by (simp add: correctOf_def)

lemma wrongOf_snoc:
  "wrongOf (pas @ [pa]) u =
     wrongOf pas u + (if userId (snd pa) = u \<and> answerIndex (snd pa) \<noteq> correctOptionIndex (fst pa) then 1 else 0)"
  by (simp add: wrongOf_def)

lemma counts_absent:
  "u \<notin> set (studentsOf pas) \<Longrightarrow> correctOf pas u = 0 \<and> wrongOf pas u = 0"
  by (auto simp: set_studentsOf correctOf_def wrongOf_def filter_empty_conv)

lemma accOf_absent: "u \<notin> set (studentsOf pas) \<Longrightarrow> accOf pas u = newParticipant u"
  by (simp add: accOf_def newParticipant_def counts_absent)

lemma accOf_snoc_other:
  "userId (snd pa) \<noteq> u \<Longrightarrow> accOf (pas @ [pa]) u = accOf pas u"
  by (simp add: accOf_def correctOf_snoc wrongOf_snoc)

lemma accOf_snoc_same:
  "accOf (pas @ [pa]) (userId (snd pa)) =
     (if answerIndex (snd pa) = correctOptionIndex (fst pa)
      then (accOf pas (userId (snd pa)))\<lparr> acc_correct := acc_correct (accOf pas (userId (snd pa))) + 1,
                 acc_score := acc_score (accOf pas (userId (snd pa))) + 5 \<rparr>
      else (accOf pas (userId (snd pa)))\<lparr> acc_wrong := acc_wrong (accOf pas (userId (snd pa))) + 1,
                 acc_score := acc_score (accOf pas (userId (snd pa))) - 2 \<rparr>)"
  by (simp add: accOf_def correctOf_snoc wrongOf_snoc)

lemma tallyAnswer_graph:
  assumes "pm = map (\<lambda>u. (u, accOf pas u)) (studentsOf pas)"
  shows "tallyAnswer (fst pa) (snd pa) pm
           = map (\<lambda>u. (u, accOf (pas @ [pa]) u)) (studentsOf (pas @ [pa]))"
proof -
  let ?k = "userId (snd pa)"
  let ?new = "accOf (pas @ [pa]) ?k"
  show ?thesis
  proof (cases "?k \<in> set (studentsOf pas)")
    case True
    have "tallyAnswer (fst pa) (snd pa) pm = AList.update ?k ?new pm"
      using True by (simp add: tallyAnswer_def assms map_of_graph accOf_snoc_same)
    also have "\<dots> = map (\<lambda>u. (u, ((accOf pas)(?k := ?new)) u)) (studentsOf pas)"
      unfolding assms by (rule update_graph_present[OF True distinct_studentsOf])
    also have "\<dots> = map (\<lambda>u. (u, accOf (pas @ [pa]) u)) (studentsOf pas)"
      by (intro map_cong) (auto simp: accOf_snoc_other)
    finally show ?thesis using True by (simp add: studentsOf_snoc)
  next
    case False
    have none: "map_of pm ?k = None"
      using False by (simp add: assms map_of_graph)
    have fresh: "newParticipant ?k = accOf pas ?k"
      using False by (simp add: accOf_absent)
    have "tallyAnswer (fst pa) (snd pa) pm = AList.update ?k ?new (AList.update ?k (accOf pas ?k) pm)"
      using none by (simp add: tallyAnswer_def fresh update_conv accOf_snoc_same)
    also have "\<dots> = AList.update ?k ?new pm"
      by simp
    also have "\<dots> = map (\<lambda>u. (u, accOf pas u)) (studentsOf pas) @ [(?k, ?new)]"
      unfolding assms by (rule update_graph_absent[OF False])
    also have "map (\<lambda>u. (u, accOf pas u)) (studentsOf pas) = map (\<lambda>u. (u, accOf (pas @ [pa]) u)) (studentsOf pas)"
    proof (intro map_cong refl)
      fix u assume "u \<in> set (studentsOf pas)"
      with False have "?k \<noteq> u" by blast
      then show "(u, accOf pas u) = (u, accOf (pas @ [pa]) u)"
        by (simp add: accOf_snoc_other)
    qed
    finally show ?thesis using False by (simp add: studentsOf_snoc)
  qed
qed

lemma tally_graph:
  "foldl (\<lambda>m pa. tallyAnswer (fst pa) (snd pa) m) [] pas = map (\<lambda>u. (u, accOf pas u)) (studentsOf pas)"
proof (induction pas rule: rev_induct)
  case Nil
  then show ?case by (simp add: studentsOf_Nil)
next
  case (snoc pa pas)
  then show ?case by (simp add: tallyAnswer_graph)
qed

lemma tallyPolls_graph:
  "tallyPolls ps = map (\<lambda>u. (u, accOf (allAnswers ps) u)) (studentsOf (allAnswers ps))"
  by (simp add: tallyPolls_flat tally_graph)


lemma snd_allAnswers: "snd ` set (allAnswers ps) = (\<Union>p \<in> set ps. set (answers p))"
  by (induction ps) (simp_all add: allAnswers_def image_Un image_image)

lemma set_studentsOf_allAnswers: "set (studentsOf (allAnswers ps)) = respondents ps"
proof -
  have "set (studentsOf (allAnswers ps)) = userId ` (snd ` set (allAnswers ps))"
    by (simp add: set_studentsOf image_image)
  then show ?thesis
    by (simp only: snd_allAnswers respondents_def)
qed

text \<open>The batch lookup of users, restricted to the students, finds whom the collection has.\<close>

lemma find_filter_same:
  "(\<And>x. P x \<Longrightarrow> Q x) \<Longrightarrow> find P (filter Q xs) = find P xs"
  by (induction xs) auto

lemma toParticipant_accOf:
  "u \<in> S \<Longrightarrow>
   toParticipant (filter (\<lambda>x. firebaseUID x \<in> S) us) (accOf pas u) = expectedParticipant us pas u"
proof -
  assume u: "u \<in> S"
  have "find (\<lambda>x. firebaseUID x = u) (filter (\<lambda>x. firebaseUID x \<in> S) us)
          = find (\<lambda>x. firebaseUID x = u) us"
    by (rule find_filter_same) (simp add: u)
  then show ?thesis
    by (simp add: toParticipant_def expectedParticipant_def displayName_def accOf_def)
qed

lemma insertBy_compareScore:
  "insertBy compareScore x ys = insort_key (\<lambda>p. - p_score p) x ys"
  by (induction ys) (simp_all add: compareScore_def)

lemma sortBy_compareScore: "sortBy compareScore xs = sort_key (\<lambda>p. - p_score p) xs"
  by (simp add: sortBy_def sort_key_def insertBy_compareScore[abs_def])

lemma getPollAnalysis_found:
  assumes "findOne code rooms = Some rm"
  shows "\<exists>out. getPollAnalysis rooms us code = Inr out
           \<and> participants out =
               sortBy compareScore (map (expectedParticipant us (allAnswers (polls rm)))
                                        (studentsOf (allAnswers (polls rm))))
           \<and> questions out = questionStats (polls rm)"
proof -
  let ?pas = "allAnswers (polls rm)"
  let ?sts = "studentsOf ?pas"
  have keys: "map fst (tallyPolls (polls rm)) = ?sts"
    by (simp add: tallyPolls_graph comp_def)
  have vals: "map snd (tallyPolls (polls rm)) = map (accOf ?pas) ?sts"
    by (simp add: tallyPolls_graph comp_def)
  have conv: "map (toParticipant (filter (\<lambda>x. firebaseUID x \<in> set ?sts) us)) (map (accOf ?pas) ?sts)
          = map (expectedParticipant us ?pas) ?sts"
    by (simp add: toParticipant_accOf)
  define out where "out =
    \<lparr> a_id = room_id rm, a_name = name rm, a_createdAt = createdAt rm,
      duration = (case (endedAt rm, createdAt rm) of
                    (Some e, Some c) \<Rightarrow> showInt (ceilDiv (e - c) 60000) @ '' mins''
                  | _ \<Rightarrow> ''N/A''),
      participants = sortBy compareScore (map (expectedParticipant us ?pas) ?sts),
      questions = questionStats (polls rm) \<rparr>"
  have "getPollAnalysis rooms us code = Inr out"
    by (simp only: getPollAnalysis_def assms option.case Let_def keys vals conv out_def)
  moreover have "participants out = sortBy compareScore (map (expectedParticipant us ?pas) ?sts)"
    "questions out = questionStats (polls rm)"
    by (simp_all add: out_def)
  ultimately show ?thesis by blast
qed

section \<open>Poll analysis: scores, participants, order\<close>

text \<open>
  C1. For a stored room, the analysis holds for each student, in the order that the sort
  by score gives to the students taken in order of first answer, a record whose
  \<open>correct\<close> is the number of the student's answers (over all polls in stored order,
  duplicates counted) that equal the correct option of their poll, whose \<open>wrong\<close> is the
  number of the student's other answers, and whose \<open>score\<close> is
  \<open>5 * correct - 2 * wrong\<close>; every answer of a student counts in exactly one of the two.
\<close>

theorem getPollAnalysis_tally:
  "findOne code rooms = Some rm \<Longrightarrow>
   \<exists>out. getPollAnalysis rooms us code = Inr out
     \<and> participants out =
          sortBy compareScore
            (map (\<lambda>u. \<lparr> p_name = displayName us u,
                         p_score = 5 * correctOf (allAnswers (polls rm)) u
                                   - 2 * wrongOf (allAnswers (polls rm)) u,
                         p_correct = correctOf (allAnswers (polls rm)) u,
                         p_wrong = wrongOf (allAnswers (polls rm)) u,
                         p_timeTaken = ''N/A'' \<rparr>)
                 (studentsOf (allAnswers (polls rm))))
     \<and> (\<forall>u. correctOf (allAnswers (polls rm)) u + wrongOf (allAnswers (polls rm)) u
              = int (length (filter (\<lambda>pa. userId (snd pa) = u) (allAnswers (polls rm)))))"
proof -
  assume f: "findOne code rooms = Some rm"
  have part: "correctOf pas u + wrongOf pas u = int (length (filter (\<lambda>pa. userId (snd pa) = u) pas))"
    for pas u
    by (induction pas) (auto simp: correctOf_def wrongOf_def)
  from getPollAnalysis_found[OF f, of us] part show ?thesis
    by (auto simp: expectedParticipant_def[abs_def])
qed

theorem getPollAnalysis_tally_witness:
  "findOne ''ABC123'' classroom = Some algebraRoom
   \<and> (\<exists>out. getPollAnalysis classroom userColl ''ABC123'' = Inr out
         \<and> participants out =
             [\<lparr> p_name = ''Ada'', p_score = 10, p_correct = 2, p_wrong = 0, p_timeTaken = ''N/A'' \<rparr>,
              \<lparr> p_name = ''Anonymous'', p_score = 3, p_correct = 1, p_wrong = 1, p_timeTaken = ''N/A'' \<rparr>])"
proof -
  have f: "findOne ''ABC123'' classroom = Some algebraRoom"
    by (simp add: findOne_def classroom_defs)
  have sts: "studentsOf (allAnswers (polls algebraRoom)) = [''u2'', ''u1'']"
    by (simp add: studentsOf_def allAnswers_def classroom_defs)
  have cnt: "correctOf (allAnswers (polls algebraRoom)) ''u1'' = 2"
    "wrongOf (allAnswers (polls algebraRoom)) ''u1'' = 0"
    "correctOf (allAnswers (polls algebraRoom)) ''u2'' = 1"
    "wrongOf (allAnswers (polls algebraRoom)) ''u2'' = 1"
    by (simp_all add: correctOf_def wrongOf_def allAnswers_def classroom_defs)
  have nm: "displayName userColl ''u1'' = ''Ada''" "displayName userColl ''u2'' = ''Anonymous''"
    by (simp_all add: displayName_def classroom_defs)
  from getPollAnalysis_tally[OF f, of userColl] obtain out where
    "getPollAnalysis classroom userColl ''ABC123'' = Inr out"
    "participants out =
       sortBy compareScore
         (map (\<lambda>u. \<lparr> p_name = displayName userColl u,
                      p_score = 5 * correctOf (allAnswers (polls algebraRoom)) u
                                - 2 * wrongOf (allAnswers (polls algebraRoom)) u,
                      p_correct = correctOf (allAnswers (polls algebraRoom)) u,
                      p_wrong = wrongOf (allAnswers (polls algebraRoom)) u,
                      p_timeTaken = ''N/A'' \<rparr>)
              (studentsOf (allAnswers (polls algebraRoom))))"
    by blast
  then have "getPollAnalysis classroom userColl ''ABC123'' = Inr out
      \<and> participants out =
          [\<lparr> p_name = ''Ada'', p_score = 10, p_correct = 2, p_wrong = 0, p_timeTaken = ''N/A'' \<rparr>,
           \<lparr> p_name = ''Anonymous'', p_score = 3, p_correct = 1, p_wrong = 1, p_timeTaken = ''N/A'' \<rparr>]"
    by (simp add: sts cnt nm sortBy_def compareScore_def)
  with f show ?thesis by blast
qed

text \<open>
  C3. For a stored room, the participants are one record for each identity that occurs
  in an answer of a poll of the room, and no other: the keys of \<open>participantsMap\<close> are
  these identities without repetition, the participants are their records, as many as
  there are such identities. A room without polls has no participants and no questions.
\<close>

theorem getPollAnalysis_participants:
  "findOne code rooms = Some rm \<Longrightarrow>
   \<exists>out. getPollAnalysis rooms us code = Inr out
     \<and> set (map fst (tallyPolls (polls rm))) = respondents (polls rm)
     \<and> distinct (map fst (tallyPolls (polls rm)))
     \<and> mset (participants out) =
          image_mset (expectedParticipant us (allAnswers (polls rm))) (mset_set (respondents (polls rm)))
     \<and> length (participants out) = card (respondents (polls rm))
     \<and> (polls rm = [] \<longrightarrow> participants out = [] \<and> questions out = [])"
proof -
  assume f: "findOne code rooms = Some rm"
  let ?pas = "allAnswers (polls rm)"
  let ?sts = "studentsOf ?pas"
  from getPollAnalysis_found[OF f, of us] obtain out where
    out: "getPollAnalysis rooms us code = Inr out"
    and ps: "participants out = sortBy compareScore (map (expectedParticipant us ?pas) ?sts)"
    and qs: "questions out = questionStats (polls rm)"
    by blast
  have keys: "map fst (tallyPolls (polls rm)) = ?sts"
    by (simp add: tallyPolls_graph comp_def)
  have ms: "mset_set (respondents (polls rm)) = mset ?sts"
    using mset_set_set[OF distinct_studentsOf, of ?pas] by (simp add: set_studentsOf_allAnswers)
  have len: "length ?sts = card (respondents (polls rm))"
    using distinct_card[OF distinct_studentsOf, of ?pas] by (simp add: set_studentsOf_allAnswers)
  have e: "polls rm = [] \<Longrightarrow> ?sts = []"
    by (simp add: allAnswers_def studentsOf_def)
  have "set (map fst (tallyPolls (polls rm))) = respondents (polls rm)"
    unfolding keys by (rule set_studentsOf_allAnswers)
  moreover have "distinct (map fst (tallyPolls (polls rm)))"
    unfolding keys by (rule distinct_studentsOf)
  moreover have "mset (participants out) = image_mset (expectedParticipant us ?pas) (mset_set (respondents (polls rm)))"
    by (simp add: ps ms sortBy_compareScore)
  moreover have "length (participants out) = card (respondents (polls rm))"
    by (simp add: ps len sortBy_compareScore)
  moreover have "polls rm = [] \<longrightarrow> participants out = [] \<and> questions out = []"
    using e by (simp add: ps qs sortBy_def questionStats_def)
  ultimately show ?thesis using out by blast
qed

theorem getPollAnalysis_participants_witness:
  "findOne ''ABC123'' classroom = Some algebraRoom
   \<and> respondents (polls algebraRoom) = {''u1'', ''u2''}
   \<and> (\<exists>out. getPollAnalysis classroom userColl ''ABC123'' = Inr out \<and> length (participants out) = 2)
   \<and> findOne ''XYZ789'' classroom = Some emptyRoom
   \<and> polls emptyRoom = []
   \<and> (\<exists>out. getPollAnalysis classroom userColl ''XYZ789'' = Inr out
          \<and> participants out = [] \<and> questions out = [])"
proof -
  have f: "findOne ''ABC123'' classroom = Some algebraRoom"
    "findOne ''XYZ789'' classroom = Some emptyRoom"
    by (simp_all add: findOne_def classroom_defs)
  have r: "respondents (polls algebraRoom) = {''u1'', ''u2''}"
    by (auto simp: respondents_def classroom_defs)
  have c: "card {''u1'', ''u2''} = 2"
    by simp
  have e: "polls emptyRoom = []"
    by (simp add: classroom_defs)
  from getPollAnalysis_participants[OF f(1), of userColl]
    getPollAnalysis_participants[OF f(2), of userColl] f r c e
  show ?thesis by auto
qed

text \<open>
  C4. The participants of every analysis are in descending order of score.
\<close>

theorem getPollAnalysis_sorted:
  "getPollAnalysis rooms us code = Inr out \<Longrightarrow>
   sorted_wrt (\<lambda>a b. p_score b \<le> p_score a) (participants out)"
proof -
  assume a: "getPollAnalysis rooms us code = Inr out"
  have srt: "sorted_wrt (\<lambda>a b. p_score b \<le> p_score a) (sortBy compareScore xs)" for xs
    using sorted_sort_key[of "\<lambda>p. - p_score p" xs]
    by (simp add: sortBy_compareScore sorted_map)
  from a show ?thesis
    by (cases "findOne code rooms") (auto simp: getPollAnalysis_def Let_def srt)
qed

theorem getPollAnalysis_sorted_witness:
  "getPollAnalysis classroom userColl ''ABC123'' = Inr algebraAnalysis
   \<and> map p_score (participants algebraAnalysis) = [10, 3]
   \<and> sorted_wrt (\<lambda>a b. p_score b \<le> p_score a) (participants algebraAnalysis)"
proof -
  have a: "getPollAnalysis classroom userColl ''ABC123'' = Inr algebraAnalysis"
    by (simp add: classroom_defs analysis_defs)
  have s: "map p_score (participants algebraAnalysis) = [10, 3]"
    by (simp add: classroom_defs)
  from getPollAnalysis_sorted[OF a] a s show ?thesis by blast
qed


section \<open>Polls without a correct option\<close>

lemma questionStats_nth:
  "i < length ps \<Longrightarrow>
   questionStats ps ! i =
     \<lparr> q_text = question (ps ! i),
       correctCount = length (filter (\<lambda>a. answerIndex a = correctOptionIndex (ps ! i)) (answers (ps ! i))) \<rparr>"
  by (simp add: questionStats_def)

lemma allAnswers_Cons: "allAnswers (p # ps) = map (Pair p) (answers p) @ allAnswers ps"
  by (simp add: allAnswers_def)

lemma counts_append:
  "correctOf (xs @ ys) u = correctOf xs u + correctOf ys u"
  "wrongOf (xs @ ys) u = wrongOf xs u + wrongOf ys u"
  "answersBy (xs @ ys) u = answersBy xs u + answersBy ys u"
  by (simp_all add: correctOf_def wrongOf_def answersBy_def)

text \<open>No answer that is an index into the options equals the sentinel.\<close>

lemma unset_poll_counts:
  assumes "correctOptionIndex p = - 1" and "\<forall>a \<in> set (answers p). 0 \<le> answerIndex a"
  shows "correctOf (map (Pair p) (answers p)) u = 0"
    and "wrongOf (map (Pair p) (answers p)) u = answersBy (map (Pair p) (answers p)) u"
proof -
  have ne: "answerIndex a \<noteq> correctOptionIndex p" if "a \<in> set (answers p)" for a
    using assms that by fastforce
  have "filter (\<lambda>pa. userId (snd pa) = u \<and> answerIndex (snd pa) = correctOptionIndex (fst pa))
          (map (Pair p) (answers p)) = []"
    using ne by (auto simp: filter_empty_conv)
  then show "correctOf (map (Pair p) (answers p)) u = 0"
    by (simp add: correctOf_def)
  have "filter (\<lambda>pa. userId (snd pa) = u \<and> answerIndex (snd pa) \<noteq> correctOptionIndex (fst pa))
          (map (Pair p) (answers p))
        = filter (\<lambda>pa. userId (snd pa) = u) (map (Pair p) (answers p))"
    using ne by (intro filter_cong refl) auto
  then show "wrongOf (map (Pair p) (answers p)) u = answersBy (map (Pair p) (answers p)) u"
    by (simp add: wrongOf_def answersBy_def)
qed

lemma unset_polls_split:
  "\<forall>p \<in> set ps. correctOptionIndex p = - 1 \<longrightarrow> (\<forall>a \<in> set (answers p). 0 \<le> answerIndex a) \<Longrightarrow>
   correctOf (allAnswers ps) u = correctOf (allAnswers (setPolls ps)) u
   \<and> wrongOf (allAnswers ps) u
       = wrongOf (allAnswers (setPolls ps)) u + answersBy (allAnswers (unsetPolls ps)) u"
proof (induction ps)
  case Nil
  then show ?case
    by (simp add: setPolls_def unsetPolls_def allAnswers_def correctOf_def wrongOf_def answersBy_def)
next
  case (Cons p ps)
  then have ih: "correctOf (allAnswers ps) u = correctOf (allAnswers (setPolls ps)) u"
    "wrongOf (allAnswers ps) u
       = wrongOf (allAnswers (setPolls ps)) u + answersBy (allAnswers (unsetPolls ps)) u"
    by simp_all
  show ?case
  proof (cases "correctOptionIndex p = - 1")
    case True
    with Cons.prems have nn: "\<forall>a \<in> set (answers p). 0 \<le> answerIndex a" by simp
    have sp: "setPolls (p # ps) = setPolls ps" "unsetPolls (p # ps) = p # unsetPolls ps"
      using True by (simp_all add: setPolls_def unsetPolls_def)
    show ?thesis
      unfolding sp allAnswers_Cons counts_append
      by (simp add: unset_poll_counts[OF True nn] ih)
  next
    case False
    have sp: "setPolls (p # ps) = p # setPolls ps" "unsetPolls (p # ps) = unsetPolls ps"
      using False by (simp_all add: setPolls_def unsetPolls_def)
    show ?thesis
      unfolding sp allAnswers_Cons counts_append
      by (simp add: ih)
  qed
qed

text \<open>
  C5. In the analysis of a stored room whose answers to polls with
  \<open>correctOptionIndex = -1\<close> are indices into the options (not negative), every such
  answer is tallied as wrong: the record of each student has as \<open>correct\<close> the correct
  answers to the polls with a configured option only, as \<open>wrong\<close> the wrong answers to
  those polls and one more for each answer of the student to an unset poll, and as
  \<open>score\<close> five times the former less twice the latter. The \<open>correctCount\<close> reported
  for every unset poll is 0.
\<close>

theorem unset_poll_tally:
  "findOne code rooms = Some rm \<Longrightarrow>
   \<forall>p \<in> set (polls rm). correctOptionIndex p = - 1 \<longrightarrow> (\<forall>a \<in> set (answers p). 0 \<le> answerIndex a) \<Longrightarrow>
   \<exists>out. getPollAnalysis rooms us code = Inr out
     \<and> participants out =
          sortBy compareScore
            (map (\<lambda>u. \<lparr> p_name = displayName us u,
                         p_score = 5 * correctOf (allAnswers (setPolls (polls rm))) u
                                   - 2 * (wrongOf (allAnswers (setPolls (polls rm))) u
                                          + answersBy (allAnswers (unsetPolls (polls rm))) u),
                         p_correct = correctOf (allAnswers (setPolls (polls rm))) u,
                         p_wrong = wrongOf (allAnswers (setPolls (polls rm))) u
                                   + answersBy (allAnswers (unsetPolls (polls rm))) u,
                         p_timeTaken = ''N/A'' \<rparr>)
                 (studentsOf (allAnswers (polls rm))))
     \<and> (\<forall>i < length (polls rm). correctOptionIndex (polls rm ! i) = - 1 \<longrightarrow>
            questions out ! i = \<lparr> q_text = question (polls rm ! i), correctCount = 0 \<rparr>)"
proof -
  assume f: "findOne code rooms = Some rm"
    and v: "\<forall>p \<in> set (polls rm). correctOptionIndex p = - 1 \<longrightarrow> (\<forall>a \<in> set (answers p). 0 \<le> answerIndex a)"
  from getPollAnalysis_found[OF f, of us] obtain out where
    out: "getPollAnalysis rooms us code = Inr out"
    and ps: "participants out =
               sortBy compareScore (map (expectedParticipant us (allAnswers (polls rm)))
                                        (studentsOf (allAnswers (polls rm))))"
    and qs: "questions out = questionStats (polls rm)"
    by blast
  have e: "expectedParticipant us (allAnswers (polls rm)) =
      (\<lambda>u. \<lparr> p_name = displayName us u,
              p_score = 5 * correctOf (allAnswers (setPolls (polls rm))) u
                        - 2 * (wrongOf (allAnswers (setPolls (polls rm))) u
                               + answersBy (allAnswers (unsetPolls (polls rm))) u),
              p_correct = correctOf (allAnswers (setPolls (polls rm))) u,
              p_wrong = wrongOf (allAnswers (setPolls (polls rm))) u
                        + answersBy (allAnswers (unsetPolls (polls rm))) u,
              p_timeTaken = ''N/A'' \<rparr>)"
    using unset_polls_split[OF v] by (intro ext) (simp add: expectedParticipant_def)
  have q: "questions out ! i = \<lparr> q_text = question (polls rm ! i), correctCount = 0 \<rparr>"
    if i: "i < length (polls rm)" and c: "correctOptionIndex (polls rm ! i) = - 1" for i
  proof -
    from i have "polls rm ! i \<in> set (polls rm)" by simp
    with v c have "\<forall>a \<in> set (answers (polls rm ! i)). 0 \<le> answerIndex a" by blast
    then have "filter (\<lambda>a. answerIndex a = correctOptionIndex (polls rm ! i)) (answers (polls rm ! i)) = []"
      unfolding c by (auto simp: filter_empty_conv)
    then show ?thesis
      unfolding qs questionStats_nth[OF i] by simp
  qed
  from out ps q show ?thesis
    unfolding e by blast
qed

theorem unset_poll_tally_witness:
  "findOne ''DRAFT1'' classroom = Some draftRoom
   \<and> map correctOptionIndex (polls draftRoom) = [0, - 1]
   \<and> map (map answerIndex \<circ> answers) (polls draftRoom) = [[0, 0], [0, 1]]
   \<and> (\<exists>out. getPollAnalysis classroom userColl ''DRAFT1'' = Inr out
          \<and> participants out =
              [\<lparr> p_name = ''Ada'', p_score = 3, p_correct = 1, p_wrong = 1, p_timeTaken = ''N/A'' \<rparr>,
               \<lparr> p_name = ''Anonymous'', p_score = 3, p_correct = 1, p_wrong = 1, p_timeTaken = ''N/A'' \<rparr>]
          \<and> questions out ! 1 = \<lparr> q_text = ''D?'', correctCount = 0 \<rparr>)"
proof -
  have f: "findOne ''DRAFT1'' classroom = Some draftRoom"
    by (simp add: findOne_def classroom_defs)
  have v: "\<forall>p \<in> set (polls draftRoom). correctOptionIndex p = - 1
             \<longrightarrow> (\<forall>a \<in> set (answers p). 0 \<le> answerIndex a)"
    by (simp add: classroom_defs)
  have d: "map correctOptionIndex (polls draftRoom) = [0, - 1]"
    "map (map answerIndex \<circ> answers) (polls draftRoom) = [[0, 0], [0, 1]]"
    by (simp_all add: classroom_defs)
  have sp: "setPolls (polls draftRoom) = [pollB]" "unsetPolls (polls draftRoom) = [draftPoll]"
    by (simp_all add: setPolls_def unsetPolls_def classroom_defs)
  have sts: "studentsOf (allAnswers (polls draftRoom)) = [''u1'', ''u2'']"
    by (simp add: studentsOf_def allAnswers_def classroom_defs)
  have cnt: "correctOf (allAnswers [pollB]) ''u1'' = 1" "wrongOf (allAnswers [pollB]) ''u1'' = 0"
    "answersBy (allAnswers [draftPoll]) ''u1'' = 1"
    "correctOf (allAnswers [pollB]) ''u2'' = 1" "wrongOf (allAnswers [pollB]) ''u2'' = 0"
    "answersBy (allAnswers [draftPoll]) ''u2'' = 1"
    by (simp_all add: correctOf_def wrongOf_def answersBy_def allAnswers_def classroom_defs)
  have nm: "displayName userColl ''u1'' = ''Ada''" "displayName userColl ''u2'' = ''Anonymous''"
    by (simp_all add: displayName_def classroom_defs)
  have i: "(1::nat) < length (polls draftRoom)" "correctOptionIndex (polls draftRoom ! 1) = - 1"
    "question (polls draftRoom ! 1) = ''D?''"
    by (simp_all add: classroom_defs)
  from unset_poll_tally[OF f v, of userColl] obtain out where
    o: "getPollAnalysis classroom userColl ''DRAFT1'' = Inr out"
    and p: "participants out =
          sortBy compareScore
            (map (\<lambda>u. \<lparr> p_name = displayName userColl u,
                         p_score = 5 * correctOf (allAnswers (setPolls (polls draftRoom))) u
                                   - 2 * (wrongOf (allAnswers (setPolls (polls draftRoom))) u
                                          + answersBy (allAnswers (unsetPolls (polls draftRoom))) u),
                         p_correct = correctOf (allAnswers (setPolls (polls draftRoom))) u,
                         p_wrong = wrongOf (allAnswers (setPolls (polls draftRoom))) u
                                   + answersBy (allAnswers (unsetPolls (polls draftRoom))) u,
                         p_timeTaken = ''N/A'' \<rparr>)
                 (studentsOf (allAnswers (polls draftRoom))))"
    and q: "\<forall>i < length (polls draftRoom). correctOptionIndex (polls draftRoom ! i) = - 1 \<longrightarrow>
            questions out ! i = \<lparr> q_text = question (polls draftRoom ! i), correctCount = 0 \<rparr>"
    by blast
  from q i have q1: "questions out ! 1 = \<lparr> q_text = ''D?'', correctCount = 0 \<rparr>"
    by metis
  from p have p1: "participants out =
              [\<lparr> p_name = ''Ada'', p_score = 3, p_correct = 1, p_wrong = 1, p_timeTaken = ''N/A'' \<rparr>,
               \<lparr> p_name = ''Anonymous'', p_score = 3, p_correct = 1, p_wrong = 1, p_timeTaken = ''N/A'' \<rparr>]"
    by (simp add: sp sts cnt nm sortBy_def compareScore_def)
  from f d o p1 q1 show ?thesis by blast
qed

section \<open>Ending a room: what is written\<close>

lemma findOneAndUpdate_found:
  "findOne code rs = Some r \<Longrightarrow>
   \<exists>j. j < length rs \<and> rs ! j = r \<and> (\<forall>i<j. roomCode (rs ! i) \<noteq> code)
       \<and> findOneAndUpdate code upd rs = (Some (upd r), rs[j := upd r])"
proof (induction rs)
  case Nil
  then show ?case by (simp add: findOne_def)
next
  case (Cons a rs)
  show ?case
  proof (cases "roomCode a = code")
    case True
    with Cons.prems have "a = r" by (simp add: findOne_def)
    with True show ?thesis by (intro exI[of _ 0]) simp
  next
    case False
    with Cons.prems have "findOne code rs = Some r" by (simp add: findOne_def)
    from Cons.IH[OF this] obtain j where
      j: "j < length rs" "rs ! j = r" "\<forall>i<j. roomCode (rs ! i) \<noteq> code"
         "findOneAndUpdate code upd rs = (Some (upd r), rs[j := upd r])"
      by blast
    have "\<forall>i<Suc j. roomCode ((a # rs) ! i) \<noteq> code"
      using False j(3) by (auto simp: nth_Cons split: nat.splits)
    with False j show ?thesis by (intro exI[of _ "Suc j"]) simp
  qed
qed

text \<open>
  What \<open>endRoom\<close> leaves alone. On the code of a stored room it returns true and
  replaces the first room with that code by one with status \<open>ended\<close> and the same
  identifier, \<open>roomCode\<close>, \<open>name\<close>, \<open>teacherId\<close>, \<open>createdAt\<close> and \<open>polls\<close>;
  every other room is as before, and the collection keeps its length.
\<close>

lemma endRoom_frame:
  "findOne code rooms = Some r \<Longrightarrow>
   \<exists>j r'. j < length rooms \<and> rooms ! j = r \<and> (\<forall>i<j. roomCode (rooms ! i) \<noteq> code)
     \<and> endRoom code rooms = (True, rooms[j := r'])
     \<and> length (snd (endRoom code rooms)) = length rooms
     \<and> status r' = ''ended''
     \<and> room_id r' = room_id r \<and> roomCode r' = roomCode r \<and> name r' = name r
     \<and> teacherId r' = teacherId r \<and> createdAt r' = createdAt r \<and> polls r' = polls r"
proof -
  assume f: "findOne code rooms = Some r"
  from findOneAndUpdate_found[OF f, of "\<lambda>r. r\<lparr>status := ''ended''\<rparr>"] obtain j where
    j: "j < length rooms" "rooms ! j = r" "\<forall>i<j. roomCode (rooms ! i) \<noteq> code"
    and u: "findOneAndUpdate code (\<lambda>r. r\<lparr>status := ''ended''\<rparr>) rooms
              = (Some (r\<lparr>status := ''ended''\<rparr>), rooms[j := r\<lparr>status := ''ended''\<rparr>])"
    by blast
  have e: "endRoom code rooms = (True, rooms[j := r\<lparr>status := ''ended''\<rparr>])"
    by (simp add: endRoom_def u)
  from j e show ?thesis
    by (intro exI[of _ j] exI[of _ "r\<lparr>status := ''ended''\<rparr>"]) simp
qed

text \<open>
  C2. \<open>endRoom\<close> is to flip the status to \<open>ended\<close> and stamp \<open>endedAt\<close>, leaving
  the rest of the room alone. The code flips the status and writes no timestamp, although
  \<open>getPollAnalysis\<close> computes the duration of a room from its \<open>endedAt\<close>: an active
  room of the classroom is ended by \<open>endRoom\<close>, has no \<open>endedAt\<close> afterwards, and its
  analysis reports the duration \<open>N/A\<close>.
\<close>

theorem endRoom_misses_endedAt:
  "map_option status (findOne ''ABC123'' classroom) = Some ''active''
   \<and> fst (endRoom ''ABC123'' classroom)
   \<and> map_option status (findOne ''ABC123'' (snd (endRoom ''ABC123'' classroom))) = Some ''ended''
   \<and> map_option endedAt (findOne ''ABC123'' (snd (endRoom ''ABC123'' classroom))) = Some None
   \<and> getPollAnalysis (snd (endRoom ''ABC123'' classroom)) userColl ''ABC123'' = Inr algebraAnalysis
   \<and> duration algebraAnalysis = ''N/A''"
  by (simp add: endRoom_def classroom_defs analysis_defs)

section \<open>Creating a room\<close>

lemma alphabet_lengths: "length lowerAlphabet = length upperAlphabet"
  by (simp add: alphabet_defs)

lemma digits_letters_disjoint: "set decimalDigits \<inter> set lowerAlphabet = {}"
  by (simp add: alphabet_defs)

lemma toUpperChar_digit: "c \<in> set decimalDigits \<Longrightarrow> toUpperChar c = c"
proof -
  assume "c \<in> set decimalDigits"
  then have "c \<notin> set lowerAlphabet" using digits_letters_disjoint by blast
  then have "map_of (zip lowerAlphabet upperAlphabet) c = None"
    using map_of_zip_is_None[OF alphabet_lengths, of c] by simp
  then show ?thesis by (simp add: toUpperChar_def)
qed

lemma toUpperChar_letter: "c \<in> set lowerAlphabet \<Longrightarrow> toUpperChar c \<in> set upperAlphabet"
proof -
  assume "c \<in> set lowerAlphabet"
  then obtain d where d: "map_of (zip lowerAlphabet upperAlphabet) c = Some d"
    using map_of_zip_is_Some[OF alphabet_lengths, of c] by blast
  then have "(c, d) \<in> set (zip lowerAlphabet upperAlphabet)" by (rule map_of_SomeD)
  then have "d \<in> set upperAlphabet" by (rule set_zip_rightD)
  with d show ?thesis by (simp add: toUpperChar_def)
qed

lemma toUpperChar_base36: "isBase36Lower c \<Longrightarrow> isBase36Upper (toUpperChar c)"
  unfolding isBase36Lower_def isBase36Upper_def
  using toUpperChar_digit[of c] toUpperChar_letter[of c] by auto

lemma toUpperCase_base36: "list_all isBase36Lower s \<Longrightarrow> list_all isBase36Upper (toUpperCase s)"
  by (induction s) (simp_all add: toUpperCase_def toUpperChar_base36)

lemma substring_2_8: "substring 2 8 s = take 6 (drop 2 s)"
  by (simp add: substring_def)

lemma createRoom_Inr_iff:
  "createRoom rooms rnd now oid nm tid = Inr (r, rooms') \<longleftrightarrow>
     toUpperCase (substring 2 8 rnd) \<noteq> [] \<and> nm \<noteq> [] \<and> tid \<noteq> []
     \<and> toUpperCase (substring 2 8 rnd) \<notin> set (map roomCode rooms)
     \<and> r = \<lparr> room_id = oid, roomCode = toUpperCase (substring 2 8 rnd), name = nm,
               teacherId = tid, createdAt = Some now, endedAt = None, status = ''active'',
               polls = [] \<rparr>
     \<and> rooms' = rooms @ [r]"
  unfolding createRoom_def Let_def by auto

text \<open>
  C9, as the code has it. For every outcome \<open>rnd\<close> of the draw, a room that
  \<open>createRoom\<close> returns has as \<open>roomCode\<close> the first six characters after the
  \<open>0.\<close> of the draw, in upper case: a string of digits and capital letters with at
  least one and at most six characters (six when the draw printed six digits or more;
  nothing pads a shorter one). Its status is \<open>active\<close>, it has no polls, its
  \<open>createdAt\<close> is the time of the call, and it is appended to the collection.
\<close>

theorem createRoom_returns:
  "isRandomBase36 rnd \<Longrightarrow> createRoom rooms rnd now oid nm tid = Inr (r, rooms') \<Longrightarrow>
     roomCode r = toUpperCase (take 6 (drop 2 rnd))
     \<and> list_all isBase36Upper (roomCode r)
     \<and> 0 < length (roomCode r) \<and> length (roomCode r) \<le> 6
     \<and> length (roomCode r) = min 6 (length rnd - 2)
     \<and> status r = ''active'' \<and> polls r = [] \<and> createdAt r = Some now \<and> endedAt r = None
     \<and> name r = nm \<and> teacherId r = tid
     \<and> rooms' = rooms @ [r]"
proof -
  assume w: "isRandomBase36 rnd" and c: "createRoom rooms rnd now oid nm tid = Inr (r, rooms')"
  from c have ne: "toUpperCase (substring 2 8 rnd) \<noteq> []"
    and r: "r = \<lparr> room_id = oid, roomCode = toUpperCase (substring 2 8 rnd), name = nm,
               teacherId = tid, createdAt = Some now, endedAt = None, status = ''active'',
               polls = [] \<rparr>"
    and rs: "rooms' = rooms @ [r]"
    unfolding createRoom_Inr_iff by blast+
  have code: "roomCode r = toUpperCase (take 6 (drop 2 rnd))"
    by (simp add: r substring_2_8)
  have digits: "list_all isBase36Lower (drop 2 rnd)"
    using w by (auto simp: isRandomBase36_def)
  then have "list_all isBase36Lower (take 6 (drop 2 rnd))"
    by (auto simp: list_all_iff dest: in_set_takeD)
  then have up: "list_all isBase36Upper (roomCode r)"
    unfolding code by (rule toUpperCase_base36)
  have len: "length (roomCode r) = min 6 (length rnd - 2)"
    by (simp add: code toUpperCase_def min.commute)
  have pos: "0 < length (roomCode r)"
    using ne by (simp add: code substring_2_8)
  from code up len pos rs show ?thesis
    by (simp add: r)
qed

theorem createRoom_returns_witness:
  "isRandomBase36 ''0.4fzyo82mvyr''
   \<and> createRoom classroom ''0.4fzyo82mvyr'' 900 ''r5'' ''Algebra'' ''teacher-1''
        = Inr (createdRoom ''4FZYO8'', classroom @ [createdRoom ''4FZYO8''])
   \<and> roomCode (createdRoom ''4FZYO8'') = ''4FZYO8''
   \<and> list_all isBase36Upper (roomCode (createdRoom ''4FZYO8''))
   \<and> length (roomCode (createdRoom ''4FZYO8'')) = 6
   \<and> status (createdRoom ''4FZYO8'') = ''active''
   \<and> polls (createdRoom ''4FZYO8'') = []
   \<and> createdAt (createdRoom ''4FZYO8'') = Some 900"
proof -
  have w: "isRandomBase36 ''0.4fzyo82mvyr''"
    by (simp add: isRandomBase36_def isBase36Lower_def alphabet_defs)
  have c: "createRoom classroom ''0.4fzyo82mvyr'' 900 ''r5'' ''Algebra'' ''teacher-1''
        = Inr (createdRoom ''4FZYO8'', classroom @ [createdRoom ''4FZYO8''])"
    by (simp add: createRoom_Inr_iff createdRoom_def substring_def toUpperCase_def
        toUpperChar_def alphabet_defs classroom_defs)
  from createRoom_returns[OF w c] have t:
    "list_all isBase36Upper (roomCode (createdRoom ''4FZYO8''))"
    "status (createdRoom ''4FZYO8'') = ''active''"
    "polls (createdRoom ''4FZYO8'') = []"
    "createdAt (createdRoom ''4FZYO8'') = Some 900"
    by blast+
  have d: "roomCode (createdRoom ''4FZYO8'') = ''4FZYO8''"
    "length (roomCode (createdRoom ''4FZYO8'')) = 6"
    by (simp_all add: createdRoom_def)
  from w c t d show ?thesis by blast
qed

text \<open>
  The claim as written fails: the code has no fixed length. The draw 0.5 prints as
  \<open>0.i\<close> and gives a code of one character; a draw with a long expansion gives six.
\<close>

theorem createRoom_length_counterexample:
  "isRandomBase36 ''0.i''
   \<and> createRoom classroom ''0.i'' 900 ''r5'' ''Algebra'' ''teacher-1''
        = Inr (createdRoom ''I'', classroom @ [createdRoom ''I''])
   \<and> length (roomCode (createdRoom ''I'')) = 1
   \<and> isRandomBase36 ''0.4fzyo82mvyr''
   \<and> createRoom classroom ''0.4fzyo82mvyr'' 900 ''r5'' ''Algebra'' ''teacher-1''
        = Inr (createdRoom ''4FZYO8'', classroom @ [createdRoom ''4FZYO8''])
   \<and> length (roomCode (createdRoom ''4FZYO8'')) = 6"
  by (simp add: isRandomBase36_def isBase36Lower_def createRoom_Inr_iff createdRoom_def
      substring_def toUpperCase_def toUpperChar_def alphabet_defs classroom_defs)


section \<open>A room's life\<close>

text \<open>
  The scenario of the specification: a room just created is valid and can be joined;
  ending it succeeds, after which it is no longer valid, cannot be joined, and is ended.
\<close>

lemma findOne_append_new:
  "roomCode r \<notin> set (map roomCode rooms) \<Longrightarrow> findOne (roomCode r) (rooms @ [r]) = Some r"
  unfolding findOne_def by (induction rooms) auto

lemma endRoom_findOne:
  "findOne code (snd (endRoom code rooms)) = map_option (\<lambda>r. r\<lparr>status := ''ended''\<rparr>) (findOne code rooms)"
proof -
  have "snd (endRoom code rooms) = snd (findOneAndUpdate code (\<lambda>r. r\<lparr>status := ''ended''\<rparr>) rooms)"
    by (simp add: endRoom_def split: prod.splits)
  then show ?thesis
    by (simp add: findOneAndUpdate_findOne)
qed

lemma room_lifecycle:
  assumes "createRoom rooms rnd now oid nm tid = Inr (r, rooms')"
  shows "isRoomValid rooms' (roomCode r) \<and> canJoinRoom rooms' (roomCode r)
         \<and> \<not> isRoomEnded rooms' (roomCode r)
         \<and> fst (endRoom (roomCode r) rooms')
         \<and> \<not> isRoomValid (snd (endRoom (roomCode r) rooms')) (roomCode r)
         \<and> \<not> canJoinRoom (snd (endRoom (roomCode r) rooms')) (roomCode r)
         \<and> isRoomEnded (snd (endRoom (roomCode r) rooms')) (roomCode r)"
proof -
  from assms have new: "roomCode r \<notin> set (map roomCode rooms)"
    and st: "status r = ''active''" and rs: "rooms' = rooms @ [r]"
    unfolding createRoom_Inr_iff by simp_all
  have f: "findOne (roomCode r) rooms' = Some r"
    unfolding rs by (rule findOne_append_new[OF new])
  have g: "findOne (roomCode r) (snd (endRoom (roomCode r) rooms')) = Some (r\<lparr>status := ''ended''\<rparr>)"
    by (simp add: endRoom_findOne f)
  have e: "fst (endRoom (roomCode r) rooms')"
    using findOneAndUpdate_fst[of "roomCode r" "\<lambda>r. r\<lparr>status := ''ended''\<rparr>" rooms'] f
    by (cases "findOneAndUpdate (roomCode r) (\<lambda>r. r\<lparr>status := ''ended''\<rparr>) rooms'")
       (simp add: endRoom_def)
  from f g e st show ?thesis
    by (simp add: isRoomValid_def canJoinRoom_def isRoomEnded_def toLowerCase_literals)
qed


end
